theory Spec2Isabelle
  imports Complex_Main
begin

section \<open>JavaScript numbers and values\<close>

text \<open>
  The preview component computes with JavaScript numbers. A number is modelled as a
  finite value, one of the two infinities, or NaN. Finite arithmetic is exact (a real
  number): the rounding of IEEE doubles to 53 bits, overflow of finite results to an
  infinity, and the sign of zero are not modelled. Everything the component does with
  the special values (\<^verbatim>\<open>NaN || 0\<close>, \<^verbatim>\<open>Math.max(1, NaN)\<close>, \<^verbatim>\<open>Infinity * 0\<close>) is.
\<close>

datatype jsnum = Fin real | PInf | NInf | NaN

text \<open>A plate field as the component may receive it: missing, \<^verbatim>\<open>null\<close>, or a number.\<close>

datatype jsval = Undefined | Null | Num jsnum

text \<open>\<^verbatim>\<open>Number(v)\<close>\<close>

fun js_Number :: "jsval \<Rightarrow> jsnum" where
  "js_Number Undefined = NaN"
| "js_Number Null = Fin 0"
| "js_Number (Num n) = n"

text \<open>Truthiness of a number: \<^verbatim>\<open>0\<close> and \<^verbatim>\<open>NaN\<close> are falsy.\<close>

fun truthy :: "jsnum \<Rightarrow> bool" where
  "truthy (Fin x) = (x \<noteq> 0)"
| "truthy NaN = False"
| "truthy PInf = True"
| "truthy NInf = True"

text \<open>\<^verbatim>\<open>a || b\<close> on numbers\<close>

definition js_or :: "jsnum \<Rightarrow> jsnum \<Rightarrow> jsnum" where
  "js_or a b = (if truthy a then a else b)"

text \<open>\<^verbatim>\<open>a + b\<close>\<close>

fun js_add :: "jsnum \<Rightarrow> jsnum \<Rightarrow> jsnum" where
  "js_add NaN _ = NaN"
| "js_add _ NaN = NaN"
| "js_add (Fin a) (Fin b) = Fin (a + b)"
| "js_add PInf NInf = NaN"
| "js_add NInf PInf = NaN"
| "js_add PInf _ = PInf"
| "js_add NInf _ = NInf"
| "js_add (Fin a) PInf = PInf"
| "js_add (Fin a) NInf = NInf"

text \<open>\<^verbatim>\<open>-a\<close>\<close>

fun js_neg :: "jsnum \<Rightarrow> jsnum" where
  "js_neg (Fin a) = Fin (- a)"
| "js_neg PInf = NInf"
| "js_neg NInf = PInf"
| "js_neg NaN = NaN"

text \<open>An infinity of the sign of \<open>x\<close>, NaN when \<open>x\<close> is zero (\<^verbatim>\<open>Infinity * 0\<close>).\<close>

definition inf_signed :: "real \<Rightarrow> jsnum" where
  "inf_signed x = (if 0 < x then PInf else if x < 0 then NInf else NaN)"

text \<open>\<^verbatim>\<open>a * b\<close>\<close>

fun js_mul :: "jsnum \<Rightarrow> jsnum \<Rightarrow> jsnum" where
  "js_mul NaN _ = NaN"
| "js_mul _ NaN = NaN"
| "js_mul (Fin a) (Fin b) = Fin (a * b)"
| "js_mul (Fin a) PInf = inf_signed a"
| "js_mul (Fin a) NInf = inf_signed (- a)"
| "js_mul PInf (Fin b) = inf_signed b"
| "js_mul NInf (Fin b) = inf_signed (- b)"
| "js_mul PInf PInf = PInf"
| "js_mul NInf NInf = PInf"
| "js_mul PInf NInf = NInf"
| "js_mul NInf PInf = NInf"

text \<open>
  \<^verbatim>\<open>a / b\<close>. A finite number divided by zero is an infinity of the sign of the
  dividend, and \<^verbatim>\<open>0 / 0\<close> is NaN; an infinity divided by a finite number keeps or
  flips its sign (the divisor zero counts as positive).
\<close>

fun js_div :: "jsnum \<Rightarrow> jsnum \<Rightarrow> jsnum" where
  "js_div NaN _ = NaN"
| "js_div _ NaN = NaN"
| "js_div (Fin a) (Fin b) = (if b = 0 then inf_signed a else Fin (a / b))"
| "js_div (Fin a) PInf = Fin 0"
| "js_div (Fin a) NInf = Fin 0"
| "js_div PInf (Fin b) = (if b < 0 then NInf else PInf)"
| "js_div NInf (Fin b) = (if b < 0 then PInf else NInf)"
| "js_div PInf PInf = NaN"
| "js_div PInf NInf = NaN"
| "js_div NInf PInf = NaN"
| "js_div NInf NInf = NaN"

text \<open>\<^verbatim>\<open>Math.max(a, b)\<close> and \<^verbatim>\<open>Math.min(a, b)\<close>: NaN if either argument is NaN.\<close>

fun js_max :: "jsnum \<Rightarrow> jsnum \<Rightarrow> jsnum" where
  "js_max NaN _ = NaN"
| "js_max _ NaN = NaN"
| "js_max PInf _ = PInf"
| "js_max _ PInf = PInf"
| "js_max NInf b = b"
| "js_max a NInf = a"
| "js_max (Fin a) (Fin b) = Fin (max a b)"

fun js_min :: "jsnum \<Rightarrow> jsnum \<Rightarrow> jsnum" where
  "js_min NaN _ = NaN"
| "js_min _ NaN = NaN"
| "js_min NInf _ = NInf"
| "js_min _ NInf = NInf"
| "js_min PInf b = b"
| "js_min a PInf = a"
| "js_min (Fin a) (Fin b) = Fin (min a b)"

text \<open>
  \<^verbatim>\<open>Math.round(a)\<close> rounds to the nearest integer, a half towards plus infinity,
  that is \<open>\<lfloor>a + 1/2\<rfloor>\<close>, which is what \<^const>\<open>round\<close> is. \<^verbatim>\<open>Math.ceil(a)\<close> is the
  ceiling. Both return the special values unchanged.
\<close>

fun js_round :: "jsnum \<Rightarrow> jsnum" where
  "js_round (Fin a) = Fin (of_int (round a))"
| "js_round PInf = PInf"
| "js_round NInf = NInf"
| "js_round NaN = NaN"

fun js_ceil :: "jsnum \<Rightarrow> jsnum" where
  "js_ceil (Fin a) = Fin (of_int \<lceil>a\<rceil>)"
| "js_ceil PInf = PInf"
| "js_ceil NInf = NInf"
| "js_ceil NaN = NaN"

text \<open>\<^verbatim>\<open>a > b\<close>: false when either side is NaN.\<close>

fun js_gt :: "jsnum \<Rightarrow> jsnum \<Rightarrow> bool" where
  "js_gt NaN _ = False"
| "js_gt _ NaN = False"
| "js_gt (Fin a) (Fin b) = (b < a)"
| "js_gt PInf PInf = False"
| "js_gt PInf _ = True"
| "js_gt NInf _ = False"
| "js_gt (Fin a) PInf = False"
| "js_gt (Fin a) NInf = True"

section \<open>The preview component: state and scale resolver\<close>

text \<open>
  \<^verbatim>\<open>boxRef.current\<close> is \<^verbatim>\<open>null\<close> (here \<open>None\<close>) until the container is mounted;
  afterwards it is an element with integer \<^verbatim>\<open>clientWidth\<close> and \<^verbatim>\<open>clientHeight\<close>.
\<close>

record element =
  clientWidth :: int
  clientHeight :: int

text \<open>The two pieces of component state, both initialised to 1 by \<^verbatim>\<open>useState(1)\<close>.\<close>

record scale_state =
  scaleX :: jsnum
  scaleY :: jsnum

definition initial_scale :: scale_state where
  "initial_scale = \<lparr>scaleX = Fin 1, scaleY = Fin 1\<rparr>"

text \<open>
  \<^verbatim>\<open>compute\<close> of the layout effect. \<^verbatim>\<open>HEIGHT_MAX\<close> is imported from
  \<^verbatim>\<open>constants/limits.js\<close> and is a parameter here; \<^verbatim>\<open>totalWidthCm\<close> is the memoised
  value the closure captures. The two setters are applied to the state passed in. Nothing
  in the body can throw, so the \<^verbatim>\<open>catch\<close> branch has no counterpart.
\<close>

definition compute :: "jsnum \<Rightarrow> element option \<Rightarrow> jsnum \<Rightarrow> scale_state \<Rightarrow> scale_state" where
  "compute HEIGHT_MAX el totalWidthCm st =
     (case el of
        None \<Rightarrow> st
      | Some e \<Rightarrow>
          let boxW = js_max (Fin 1) (Fin (of_int (clientWidth e)));
              boxH = js_max (Fin 1) (Fin (of_int (clientHeight e)));
              vScale = js_div boxH HEIGHT_MAX;
              hScale = js_div boxW (js_max (Fin 1) totalWidthCm)
          in st\<lparr>scaleY := vScale, scaleX := js_min vScale hScale\<rparr>)"

section \<open>The preview component: derived values and rendering\<close>

text \<open>A plate as the component receives it. The field \<open>plate_id\<close> is the plate's \<^verbatim>\<open>id\<close>.\<close>

record plate =
  plate_id :: string
  widthCm :: jsval
  heightCm :: jsval
  motifUrl :: string

text \<open>
  \<^verbatim>\<open>Number(v) || 0\<close>, the coercion applied to \<^verbatim>\<open>p?.widthCm\<close> and \<^verbatim>\<open>p?.heightCm\<close>
  wherever the component reads them.
\<close>

definition num_or_zero :: "jsval \<Rightarrow> jsnum" where
  "num_or_zero v = js_or (js_Number v) (Fin 0)"

text \<open>The memoised \<^verbatim>\<open>totalWidthCm\<close>: a left-to-right \<^verbatim>\<open>reduce\<close> from 0, then \<^verbatim>\<open>|| 1\<close>.\<close>

definition totalWidthCm :: "plate list \<Rightarrow> jsnum" where
  "totalWidthCm plates =
     js_or (foldl (\<lambda>s p. js_add s (num_or_zero (widthCm p))) (Fin 0) plates) (Fin 1)"

record frame_dims =
  frameW :: jsnum
  frameH :: jsnum

definition frameDims :: "element option \<Rightarrow> jsnum \<Rightarrow> jsnum \<Rightarrow> frame_dims" where
  "frameDims el tot sx =
     (let fH = (case el of Some e \<Rightarrow> Fin (of_int (clientHeight e)) | None \<Rightarrow> Fin 360);
          fW = js_max (Fin 1) (js_round (js_mul tot sx))
      in \<lparr>frameW = fW, frameH = fH\<rparr>)"

definition MOTIF_WIDTH_CM :: jsnum where
  "MOTIF_WIDTH_CM = Fin 300"

definition needMirror :: "jsnum \<Rightarrow> bool" where
  "needMirror tot = js_gt tot MOTIF_WIDTH_CM"

record tile_dims =
  tileW :: jsnum
  tileCount :: jsnum

definition tile :: "jsnum \<Rightarrow> jsnum \<Rightarrow> tile_dims" where
  "tile sx fW =
     (let tW = js_max (Fin 1) (js_round (js_mul MOTIF_WIDTH_CM sx));
          tC = js_max (Fin 1) (js_ceil (js_div fW tW))
      in \<lparr>tileW = tW, tileCount = tC\<rparr>)"

text \<open>
  \<^verbatim>\<open>Array.from({ length: n })\<close>. The length is converted by ToLength (NaN and negative
  numbers to 0, truncation, a cap of \<open>2^53 - 1\<close>), and constructing an array longer than
  \<open>2^32 - 1\<close> throws a RangeError. The array is represented by its indices.
\<close>

datatype js_error = RangeError

definition ToLength :: "jsnum \<Rightarrow> nat" where
  "ToLength n =
     (case n of
        Fin x \<Rightarrow> (if x \<le> 0 then 0 else min (nat \<lfloor>x\<rfloor>) (2 ^ 53 - 1))
      | PInf \<Rightarrow> 2 ^ 53 - 1
      | NInf \<Rightarrow> 0
      | NaN \<Rightarrow> 0)"

definition Array_from_length :: "jsnum \<Rightarrow> js_error + nat list" where
  "Array_from_length n =
     (let len = ToLength n
      in if 2 ^ 32 - 1 < len then Inl RangeError else Inr [0..<len])"

text \<open>
  What is rendered. A plate's box holds either one stretched image or a row of tiles;
  only the geometry and the mirroring are kept (\<^verbatim>\<open>transform: scaleX(-1)\<close> is
  \<open>mirrored = True\<close>).
\<close>

record tile_img =
  img_width :: jsnum
  img_height :: jsnum
  mirrored :: bool

datatype motif_view =
    is_Stretched: Stretched (view_left: jsnum) (view_width: jsnum) (view_height: jsnum)
  | is_Tiled: Tiled (view_left: jsnum) (view_width: jsnum) (view_height: jsnum) (tiles: "tile_img list")

record plate_box =
  box_key :: string
  box_w :: jsnum
  box_h :: jsnum
  box_left :: jsnum
  box_motif :: motif_view

text \<open>The conditional inside a plate's box: \<^verbatim>\<open>!needMirror ? <img/> : <div>tiles</div>\<close>.\<close>

definition plate_motif :: "bool \<Rightarrow> frame_dims \<Rightarrow> tile_dims \<Rightarrow> jsnum \<Rightarrow> js_error + motif_view" where
  "plate_motif nm fd td leftPx =
     (if \<not> nm then Inr (Stretched (js_neg leftPx) (frameW fd) (frameH fd))
      else case Array_from_length (tileCount td) of
             Inl e \<Rightarrow> Inl e
           | Inr idxs \<Rightarrow>
               Inr (Tiled (js_neg leftPx) (frameW fd) (frameH fd)
                      (map (\<lambda>idx. \<lparr>img_width = tileW td, img_height = frameH fd,
                                     mirrored = (idx mod 2 = 1)\<rparr>) idxs)))"

text \<open>
  \<^verbatim>\<open>plates.map((p, i) => ...)\<close> with the running offset \<^verbatim>\<open>xCm\<close> threaded through.
  An exception thrown while a plate is rendered ends the whole render.
\<close>

fun render_plates ::
  "bool \<Rightarrow> frame_dims \<Rightarrow> tile_dims \<Rightarrow> scale_state \<Rightarrow> jsnum \<Rightarrow> plate list
     \<Rightarrow> js_error + plate_box list" where
  "render_plates nm fd td st xCm [] = Inr []"
| "render_plates nm fd td st xCm (p # ps) =
     (let wCm = num_or_zero (widthCm p);
          hCm = num_or_zero (heightCm p);
          w = js_max (Fin 1) (js_round (js_mul wCm (scaleX st)));
          h = js_max (Fin 1) (js_round (js_mul hCm (scaleY st)));
          leftPx = js_round (js_mul xCm (scaleX st));
          xCm' = js_add xCm wCm
      in case plate_motif nm fd td leftPx of
           Inl e \<Rightarrow> Inl e
         | Inr m \<Rightarrow>
             (case render_plates nm fd td st xCm' ps of
                Inl e \<Rightarrow> Inl e
              | Inr bs \<Rightarrow>
                  Inr (\<lparr>box_key = plate_id p, box_w = w, box_h = h, box_left = leftPx,
                        box_motif = m\<rparr> # bs)))"

text \<open>One render of the component for the current state, container and plates.\<close>

definition MultiPlatePreview ::
  "element option \<Rightarrow> scale_state \<Rightarrow> plate list \<Rightarrow> js_error + plate_box list" where
  "MultiPlatePreview el st plates =
     (let tot = totalWidthCm plates;
          fd = frameDims el tot (scaleX st);
          td = tile (scaleX st) (frameW fd)
      in render_plates (needMirror tot) fd td st (Fin 0) plates)"

text \<open>
  Not modelled: a \<^verbatim>\<open>plates\<close> prop that is not an array, array entries that are not
  objects, and field values other than \<^verbatim>\<open>undefined\<close>, \<^verbatim>\<open>null\<close> and numbers.
\<close>

section \<open>The plate list operations of the application\<close>

text \<open>
  \<^verbatim>\<open>withId\<close>, \<^verbatim>\<open>addPlate\<close> and \<^verbatim>\<open>removePlate\<close> of \<^verbatim>\<open>App.jsx\<close>, as updaters of
  the plate list. The identifier drawn by \<^verbatim>\<open>crypto.randomUUID()\<close> is the parameter
  \<open>uuid\<close>; \<^verbatim>\<open>DEFAULT_MOTIF_URL\<close> and \<^verbatim>\<open>NEW_PLATE\<close> come from
  \<^verbatim>\<open>constants/config.js\<close> and are parameters. Logging is left out.
\<close>

definition withId :: "string \<Rightarrow> string \<Rightarrow> plate \<Rightarrow> plate" where
  "withId uuid DEFAULT_MOTIF_URL p = p\<lparr>plate_id := uuid, motifUrl := DEFAULT_MOTIF_URL\<rparr>"

definition addPlate :: "string \<Rightarrow> string \<Rightarrow> plate \<Rightarrow> plate list \<Rightarrow> plate list" where
  "addPlate uuid DEFAULT_MOTIF_URL NEW_PLATE prev =
     (if length prev \<ge> 10 then prev else prev @ [withId uuid DEFAULT_MOTIF_URL NEW_PLATE])"

definition removePlate :: "string \<Rightarrow> plate list \<Rightarrow> plate list" where
  "removePlate i prev = (if length prev \<le> 1 then prev else filter (\<lambda>p. plate_id p \<noteq> i) prev)"

text \<open>A sequence of user actions, applied to the list one after the other.\<close>

datatype plate_op = Add string | Remove string

fun apply_op :: "string \<Rightarrow> plate \<Rightarrow> plate_op \<Rightarrow> plate list \<Rightarrow> plate list" where
  "apply_op dm np (Add uuid) ps = addPlate uuid dm np ps"
| "apply_op dm np (Remove i) ps = removePlate i ps"

fun apply_ops :: "string \<Rightarrow> plate \<Rightarrow> plate_op list \<Rightarrow> plate list \<Rightarrow> plate list" where
  "apply_ops dm np [] ps = ps"
| "apply_ops dm np (op # ops) ps = apply_ops dm np ops (apply_op dm np op ps)"

text \<open>The identifiers a sequence of actions hands to new plates, in order.\<close>

fun added_ids :: "plate_op list \<Rightarrow> string list" where
  "added_ids [] = []"
| "added_ids (Add uuid # ops) = uuid # added_ids ops"
| "added_ids (Remove i # ops) = added_ids ops"

section \<open>Notions used to state the properties\<close>

text \<open>
  In tiled mode the tile count must convert to an array length that
  \<^verbatim>\<open>Array.from\<close> accepts; otherwise rendering the first plate throws.
\<close>

definition tile_row_fits :: "element option \<Rightarrow> scale_state \<Rightarrow> plate list \<Rightarrow> bool" where
  "tile_row_fits el st plates =
     (needMirror (totalWidthCm plates) \<longrightarrow>
        ToLength (tileCount (tile (scaleX st)
          (frameW (frameDims el (totalWidthCm plates) (scaleX st))))) \<le> 2 ^ 32 - 1)"

text \<open>Finite numbers and their values; the width of a plate in centimetres after coercion.\<close>

fun is_fin :: "jsnum \<Rightarrow> bool" where
  "is_fin (Fin x) = True"
| "is_fin _ = False"

fun num_val :: "jsnum \<Rightarrow> real" where
  "num_val (Fin x) = x"
| "num_val _ = 0"

definition width_cm :: "plate \<Rightarrow> real" where
  "width_cm p = num_val (num_or_zero (widthCm p))"

definition finite_widths :: "plate list \<Rightarrow> bool" where
  "finite_widths ps = list_all (\<lambda>p. is_fin (num_or_zero (widthCm p))) ps"

section \<open>Example inputs\<close>

text \<open>
  Two plates of 250 and 100 cm (wider than the motif), one plate of exactly 300 cm, two
  plates with a missing height and a NaN width, and two plates that share an identifier;
  a template for new plates; one plate of width 0; a state with both scales 3 and a
  state with different horizontal and vertical scales.
\<close>

definition plates_A :: "plate list" where
  "plates_A = [\<lparr>plate_id = ''a'', widthCm = Num (Fin 250), heightCm = Num (Fin 128), motifUrl = ''m''\<rparr>,
               \<lparr>plate_id = ''b'', widthCm = Num (Fin 100), heightCm = Num (Fin 90), motifUrl = ''m''\<rparr>]"

definition plates_B :: "plate list" where
  "plates_B = [\<lparr>plate_id = ''a'', widthCm = Num (Fin 300), heightCm = Num (Fin 200), motifUrl = ''m''\<rparr>]"

definition plates_gap :: "plate list" where
  "plates_gap = [\<lparr>plate_id = ''a'', widthCm = Num (Fin 120), heightCm = Undefined, motifUrl = ''m''\<rparr>,
                 \<lparr>plate_id = ''b'', widthCm = Num NaN, heightCm = Num (Fin 80), motifUrl = ''m''\<rparr>]"

definition new_plate :: plate where
  "new_plate = \<lparr>plate_id = [], widthCm = Num (Fin 30), heightCm = Num (Fin 30), motifUrl = []\<rparr>"

definition plates_twins :: "plate list" where
  "plates_twins = [\<lparr>plate_id = ''a'', widthCm = Num (Fin 100), heightCm = Num (Fin 50), motifUrl = ''m''\<rparr>,
                   \<lparr>plate_id = ''a'', widthCm = Num (Fin 60), heightCm = Num (Fin 50), motifUrl = ''m''\<rparr>]"

definition plates_zero :: "plate list" where
  "plates_zero = [\<lparr>plate_id = ''a'', widthCm = Num (Fin 0), heightCm = Num (Fin 50), motifUrl = ''m''\<rparr>]"

definition wide_scale :: scale_state where
  "wide_scale = \<lparr>scaleX = Fin 3, scaleY = Fin 3\<rparr>"

definition narrow_scale :: scale_state where
  "narrow_scale = \<lparr>scaleX = Fin (1 / 2), scaleY = Fin 2\<rparr>"

section \<open>Properties of the scale resolver\<close>

lemma js_min_not_gt: "\<not> js_gt (js_min a b) a"
  by (cases a; cases b) auto

lemma compute_mounted:
  "compute HEIGHT_MAX (Some e) t st =
     st\<lparr>scaleY := js_div (js_max (Fin 1) (Fin (of_int (clientHeight e)))) HEIGHT_MAX,
        scaleX := js_min (js_div (js_max (Fin 1) (Fin (of_int (clientHeight e)))) HEIGHT_MAX)
                    (js_div (js_max (Fin 1) (Fin (of_int (clientWidth e)))) (js_max (Fin 1) t))\<rparr>"
  by (simp add: compute_def Let_def)

text \<open>
  C1. For positive container width and height, positive total width and positive height
  ceiling, \<^verbatim>\<open>compute\<close> sets \<open>scaleY\<close> to the container height divided by the height
  ceiling, and \<open>scaleX\<close> to the smaller of that and the container width divided by the
  total width, the divisor clamped to at least 1.
\<close>

theorem compute_scales:
  assumes "0 < cw" and "0 < ch" and "0 < t" and "0 < hm"
  shows "compute (Fin hm) (Some \<lparr>clientWidth = cw, clientHeight = ch\<rparr>) (Fin t) st =
           st\<lparr>scaleY := Fin (of_int ch / hm),
              scaleX := Fin (min (of_int ch / hm) (of_int cw / max 1 t))\<rparr>"
proof -
  have w: "max 1 (real_of_int cw) = of_int cw" using assms(1) by simp
  have h: "max 1 (real_of_int ch) = of_int ch" using assms(2) by simp
  have d: "max 1 t \<noteq> 0" by simp
  show ?thesis using assms(4) d by (simp add: compute_mounted w h)
qed

theorem compute_scales_witness:
  "compute (Fin 220) (Some \<lparr>clientWidth = 800, clientHeight = 360\<rparr>) (Fin 350) initial_scale =
     \<lparr>scaleX = Fin (18 / 11), scaleY = Fin (18 / 11)\<rparr>"
  using compute_scales [of 800 360 350 220 initial_scale]
  by (simp add: initial_scale_def)

text \<open>
  C8, as stated: there are positive inputs for which the computed \<open>scaleX\<close> exceeds the
  computed \<open>scaleY\<close>. There are none.
\<close>

theorem scaleX_never_exceeds_scaleY:
  "\<not> (\<exists>cw ch t hm st. 0 < cw \<and> 0 < ch \<and> 0 < t \<and> 0 < hm \<and>
        js_gt (scaleX (compute (Fin hm) (Some \<lparr>clientWidth = cw, clientHeight = ch\<rparr>) (Fin t) st))
              (scaleY (compute (Fin hm) (Some \<lparr>clientWidth = cw, clientHeight = ch\<rparr>) (Fin t) st)))"
  by (simp add: compute_mounted js_min_not_gt)

text \<open>
  C8, amended: for all positive inputs \<^verbatim>\<open>compute\<close> produces finite scales with
  \<open>scaleY = vScale\<close>, \<open>scaleX = min(vScale, hScale)\<close>, and \<open>scaleX \<le> scaleY\<close>.
\<close>

theorem compute_scaleX_le_scaleY:
  assumes "0 < cw" and "0 < ch" and "0 < t" and "0 < hm"
  shows "\<exists>x y. compute (Fin hm) (Some \<lparr>clientWidth = cw, clientHeight = ch\<rparr>) (Fin t) st =
                  st\<lparr>scaleY := Fin y, scaleX := Fin x\<rparr>
               \<and> y = of_int ch / hm \<and> x = min y (of_int cw / max 1 t) \<and> x \<le> y"
proof -
  have w: "max 1 (real_of_int cw) = of_int cw" using assms(1) by simp
  have h: "max 1 (real_of_int ch) = of_int ch" using assms(2) by simp
  have d: "max 1 t \<noteq> 0" by simp
  show ?thesis using assms(4) d by (simp add: compute_mounted w h)
qed

theorem compute_scaleX_le_scaleY_witness:
  "\<exists>x y. compute (Fin 128) (Some \<lparr>clientWidth = 64, clientHeight = 512\<rparr>) (Fin 256) initial_scale =
            initial_scale\<lparr>scaleY := Fin y, scaleX := Fin x\<rparr>
         \<and> y = 4 \<and> x = 1 / 4 \<and> x \<le> y"
  using compute_scaleX_le_scaleY [of 64 512 256 128 initial_scale] by simp

text \<open>
  C6, as stated: a container of zero size makes \<^verbatim>\<open>compute\<close> skip and keep the scales.
  With a mounted container of size 0 by 0, height ceiling 128 and total width 1, the
  initial scales (1, 1) are replaced by (1/128, 1/128).
\<close>

theorem compute_zero_size_overwrites:
  "compute (Fin 128) (Some \<lparr>clientWidth = 0, clientHeight = 0\<rparr>) (Fin 1)
       \<lparr>scaleX = Fin 1, scaleY = Fin 1\<rparr>
     = \<lparr>scaleX = Fin (1 / 128), scaleY = Fin (1 / 128)\<rparr>
   \<and> compute (Fin 128) (Some \<lparr>clientWidth = 0, clientHeight = 0\<rparr>) (Fin 1)
       \<lparr>scaleX = Fin 1, scaleY = Fin 1\<rparr>
     \<noteq> \<lparr>scaleX = Fin 1, scaleY = Fin 1\<rparr>"
  by (simp add: compute_mounted)

text \<open>
  C6, amended: when the container is not mounted \<^verbatim>\<open>compute\<close> returns the state
  unchanged; when it is mounted with zero size, both dimensions are clamped to 1 and
  the scales are recomputed from them. Either way a state is returned.
\<close>

theorem compute_unmounted_or_zero_size:
  "compute HEIGHT_MAX None t st = st
   \<and> compute HEIGHT_MAX (Some \<lparr>clientWidth = 0, clientHeight = 0\<rparr>) t st =
       st\<lparr>scaleY := js_div (Fin 1) HEIGHT_MAX,
          scaleX := js_min (js_div (Fin 1) HEIGHT_MAX) (js_div (Fin 1) (js_max (Fin 1) t))\<rparr>"
  by (simp add: compute_def Let_def)

section \<open>Rendering: when it returns and what it returns\<close>

lemma render_plates_length:
  "render_plates nm fd td st x ps = Inr bs \<Longrightarrow> length bs = length ps"
  by (induction ps arbitrary: x bs) (auto simp: Let_def split: sum.splits)

lemma plate_motif_returns:
  "\<not> nm \<or> ToLength (tileCount td) \<le> 2 ^ 32 - 1 \<Longrightarrow> \<exists>m. plate_motif nm fd td l = Inr m"
  by (auto simp: plate_motif_def Array_from_length_def Let_def)

lemma render_plates_returns:
  "\<not> nm \<or> ToLength (tileCount td) \<le> 2 ^ 32 - 1 \<Longrightarrow> \<exists>bs. render_plates nm fd td st x ps = Inr bs"
proof (induction ps arbitrary: x)
  case Nil
  then show ?case by simp
next
  case (Cons p ps)
  obtain m where m: "plate_motif nm fd td (js_round (js_mul x (scaleX st))) = Inr m"
    using plate_motif_returns [OF Cons.prems] by blast
  obtain bs where "render_plates nm fd td st (js_add x (num_or_zero (widthCm p))) ps = Inr bs"
    using Cons.IH [OF Cons.prems] by blast
  with m show ?case by (simp add: Let_def)
qed

lemma render_plates_nth:
  "render_plates nm fd td st x ps = Inr bs \<Longrightarrow> i < length ps \<Longrightarrow>
     box_left (bs ! i) =
       js_round (js_mul (foldl (\<lambda>s p. js_add s (num_or_zero (widthCm p))) x (take i ps)) (scaleX st))
   \<and> box_w (bs ! i) = js_max (Fin 1) (js_round (js_mul (num_or_zero (widthCm (ps ! i))) (scaleX st)))
   \<and> box_h (bs ! i) = js_max (Fin 1) (js_round (js_mul (num_or_zero (heightCm (ps ! i))) (scaleY st)))
   \<and> box_key (bs ! i) = plate_id (ps ! i)
   \<and> plate_motif nm fd td
         (js_round (js_mul (foldl (\<lambda>s p. js_add s (num_or_zero (widthCm p))) x (take i ps)) (scaleX st)))
       = Inr (box_motif (bs ! i))"
proof (induction ps arbitrary: x bs i)
  case Nil
  then show ?case by simp
next
  case (Cons p ps)
  obtain m bs' where m: "plate_motif nm fd td (js_round (js_mul x (scaleX st))) = Inr m"
    and r: "render_plates nm fd td st (js_add x (num_or_zero (widthCm p))) ps = Inr bs'"
    and bs: "bs = \<lparr>box_key = plate_id p,
                   box_w = js_max (Fin 1) (js_round (js_mul (num_or_zero (widthCm p)) (scaleX st))),
                   box_h = js_max (Fin 1) (js_round (js_mul (num_or_zero (heightCm p)) (scaleY st))),
                   box_left = js_round (js_mul x (scaleX st)), box_motif = m\<rparr> # bs'"
    using Cons.prems(1) by (auto simp: Let_def split: sum.splits)
  show ?case
  proof (cases i)
    case 0
    then show ?thesis using m bs by simp
  next
    case (Suc j)
    then have "j < length ps" using Cons.prems(2) by simp
    from Cons.IH [OF r this] show ?thesis using Suc bs by simp
  qed
qed

lemma render_plates_widths:
  "render_plates nm fd td st x ps = Inr bs \<Longrightarrow>
     map box_w bs = map (\<lambda>p. js_max (Fin 1) (js_round (js_mul (num_or_zero (widthCm p)) (scaleX st)))) ps"
  by (induction ps arbitrary: x bs) (auto simp: Let_def split: sum.splits)

lemma MultiPlatePreview_returns:
  "tile_row_fits el st ps \<Longrightarrow> \<exists>bs. MultiPlatePreview el st ps = Inr bs"
  unfolding MultiPlatePreview_def Let_def tile_row_fits_def
  by (rule render_plates_returns) blast

lemma plate_motif_mode:
  "plate_motif nm fd td l = Inr m \<Longrightarrow> is_Tiled m = nm \<and> is_Stretched m = (\<not> nm)"
  by (auto simp: plate_motif_def split: if_splits sum.splits)

lemma plate_motif_tiled:
  "plate_motif True fd td l = Inr m \<Longrightarrow>
     m = Tiled (js_neg l) (frameW fd) (frameH fd)
           (map (\<lambda>idx. \<lparr>img_width = tileW td, img_height = frameH fd, mirrored = (idx mod 2 = 1)\<rparr>)
              [0..<ToLength (tileCount td)])"
  by (auto simp: plate_motif_def Array_from_length_def Let_def split: if_splits sum.splits)

lemma render_plates_motif:
  assumes "render_plates nm fd td st x ps = Inr bs" and "b \<in> set bs"
  shows "\<exists>l. plate_motif nm fd td l = Inr (box_motif b)"
proof -
  from assms(2) obtain i where i: "i < length bs" "b = bs ! i"
    by (auto simp: in_set_conv_nth)
  with render_plates_length [OF assms(1)] have "i < length ps" by simp
  from render_plates_nth [OF assms(1) this] i(2) show ?thesis by blast
qed

section \<open>Finite inputs\<close>

lemma is_fin_num_val: "is_fin x \<Longrightarrow> x = Fin (num_val x)"
  by (cases x) simp_all

lemma foldl_widths_fin:
  "finite_widths ps \<Longrightarrow>
     foldl (\<lambda>s p. js_add s (num_or_zero (widthCm p))) (Fin a) ps = Fin (a + sum_list (map width_cm ps))"
proof (induction ps arbitrary: a)
  case Nil
  then show ?case by simp
next
  case (Cons p ps)
  from Cons.prems have "num_or_zero (widthCm p) = Fin (width_cm p)"
    by (simp add: finite_widths_def width_cm_def is_fin_num_val)
  moreover from Cons.prems have "finite_widths ps" by (simp add: finite_widths_def)
  ultimately show ?case using Cons.IH [of "a + width_cm p"] by (simp add: add.assoc)
qed

lemma finite_widths_take: "finite_widths ps \<Longrightarrow> finite_widths (take i ps)"
  unfolding finite_widths_def list_all_iff by (auto dest: in_set_takeD)

lemma totalWidthCm_fin:
  "finite_widths ps \<Longrightarrow>
     totalWidthCm ps = Fin (if sum_list (map width_cm ps) = 0 then 1 else sum_list (map width_cm ps))"
  by (simp add: totalWidthCm_def foldl_widths_fin js_or_def)

lemma frameW_fin:
  "frameW (frameDims el (Fin t) (Fin sx)) = Fin (of_int (max 1 (round (t * sx))))"
  by (simp add: frameDims_def Let_def of_int_max)

lemma tile_fin:
  "tile (Fin sx) (Fin (of_int fw)) =
     \<lparr>tileW = Fin (of_int (max 1 (round (300 * sx)))),
      tileCount = Fin (of_int (max 1 \<lceil>real_of_int fw / of_int (max 1 (round (300 * sx)))\<rceil>))\<rparr>"
proof -
  have "real_of_int (max 1 (round (300 * sx))) \<noteq> 0" by simp
  then show ?thesis
    by (simp add: tile_def Let_def MOTIF_WIDTH_CM_def of_int_max del: of_int_eq_0_iff)
qed

lemma ToLength_pos_int:
  "1 \<le> tc \<Longrightarrow> ToLength (Fin (of_int tc)) = min (nat tc) (2 ^ 53 - 1)"
  by (simp add: ToLength_def)

text \<open>
  Once \<^verbatim>\<open>compute\<close> has run for the current plates in a mounted container, the tile
  row is no longer than the container is wide, so the render of the settled state
  returns.
\<close>

lemma tile_row_fits_after_compute:
  assumes fin: "finite_widths ps" and hm: "0 < hm" and cw: "clientWidth e \<le> 2 ^ 32 - 1"
  shows "tile_row_fits (Some e) (compute (Fin hm) (Some e) (totalWidthCm ps) st) ps"
proof -
  obtain t where t: "totalWidthCm ps = Fin t"
    using totalWidthCm_fin [OF fin] by blast
  define bw where "bw = max 1 (clientWidth e)"
  define bh where "bh = max 1 (clientHeight e)"
  define sx where "sx = min (real_of_int bh / hm) (real_of_int bw / max 1 t)"
  have sX: "scaleX (compute (Fin hm) (Some e) (Fin t) st) = Fin sx"
  proof -
    have d: "max 1 t \<noteq> 0" by simp
    show ?thesis using hm d by (simp add: compute_mounted sx_def bw_def bh_def of_int_max)
  qed
  show ?thesis
  proof (cases "300 < t")
    case False
    then show ?thesis by (simp add: tile_row_fits_def t needMirror_def MOTIF_WIDTH_CM_def)
  next
    case True
    define fw where "fw = max 1 (round (t * sx))"
    define tw where "tw = max 1 (round (300 * sx))"
    define tc where "tc = max 1 \<lceil>real_of_int fw / real_of_int tw\<rceil>"
    have "sx \<le> real_of_int bw / t" using True by (simp add: sx_def min_def max_def)
    then have "t * sx \<le> real_of_int bw" using True by (simp add: pos_le_divide_eq mult.commute)
    then have "round (t * sx) \<le> round (real_of_int bw)" by (rule round_mono)
    then have fwb: "fw \<le> bw" by (simp add: fw_def bw_def)
    have fw1: "1 \<le> fw" and tw1: "1 \<le> tw" by (simp_all add: fw_def tw_def)
    have "real_of_int fw / real_of_int tw \<le> real_of_int fw"
      using fw1 tw1 by (simp add: pos_divide_le_eq mult_le_cancel_left1)
    then have "\<lceil>real_of_int fw / real_of_int tw\<rceil> \<le> fw" by (simp add: ceiling_le_iff)
    then have tcb: "tc \<le> bw" and tc1: "1 \<le> tc" using fw1 fwb by (simp_all add: tc_def)
    have "bw \<le> 2 ^ 32 - 1" using cw by (simp add: bw_def)
    with tcb have "nat tc \<le> 2 ^ 32 - 1" by simp
    then have len: "ToLength (Fin (of_int tc)) \<le> 2 ^ 32 - 1"
      by (simp add: ToLength_pos_int [OF tc1])
    have fW: "frameW (frameDims (Some e) (Fin t) (Fin sx)) = Fin (of_int fw)"
      by (simp add: frameW_fin fw_def)
    have tl: "tile (Fin sx) (Fin (of_int fw)) = \<lparr>tileW = Fin (of_int tw), tileCount = Fin (of_int tc)\<rparr>"
      by (simp add: tile_fin tw_def tc_def)
    show ?thesis
      using len by (simp add: tile_row_fits_def t sX fW tl)
  qed
qed

section \<open>The example inputs evaluated\<close>

lemma total_A: "totalWidthCm plates_A = Fin 350"
  by (simp add: totalWidthCm_def plates_A_def num_or_zero_def js_or_def)

lemma total_B: "totalWidthCm plates_B = Fin 300"
  by (simp add: totalWidthCm_def plates_B_def num_or_zero_def js_or_def)

lemma total_gap: "totalWidthCm plates_gap = Fin 120"
  by (simp add: totalWidthCm_def plates_gap_def num_or_zero_def js_or_def)

lemma tile_A: "tile (Fin (1 / 2)) (Fin 175) = \<lparr>tileW = Fin 150, tileCount = Fin 2\<rparr>"
  using tile_fin [of "1 / 2" 175] by simp

lemma fits_A: "tile_row_fits None narrow_scale plates_A"
  by (simp add: tile_row_fits_def total_A narrow_scale_def frameW_fin tile_A ToLength_def)

lemma fits_B: "tile_row_fits None narrow_scale plates_B"
  by (simp add: tile_row_fits_def total_B needMirror_def MOTIF_WIDTH_CM_def)

lemma fits_gap: "tile_row_fits None narrow_scale plates_gap"
  by (simp add: tile_row_fits_def total_gap needMirror_def MOTIF_WIDTH_CM_def)

lemma finite_A: "finite_widths plates_A"
  by (simp add: finite_widths_def plates_A_def num_or_zero_def js_or_def)

section \<open>Properties of the motif compositor\<close>

text \<open>
  C2. Whenever the render returns (stretched mode, or a tile row within the array
  limit) it yields one box per plate, in order. Box \<open>i\<close> has \<open>leftPx\<close> equal to the
  rounded product of \<open>scaleX\<close> and the running offset, which starts at 0 and is the
  left-to-right sum of the coerced widths of plates \<open>0 .. i - 1\<close>; its width and height
  are the rounded scaled width and height, each clamped to at least 1. \<open>leftPx\<close> is not
  clamped: for a finite \<open>scaleX\<close> the first plate's \<open>leftPx\<close> is 0, and for finite widths
  \<open>leftPx\<close> is \<open>round (sum of preceding widths * scaleX)\<close>.
\<close>

theorem compositor_geometry:
  assumes "tile_row_fits el st ps" and "scaleX st = Fin sx"
  shows "\<exists>bs. MultiPlatePreview el st ps = Inr bs \<and> length bs = length ps
           \<and> (\<forall>i<length ps.
                box_left (bs ! i) =
                  js_round (js_mul (foldl (\<lambda>x p. js_add x (num_or_zero (widthCm p))) (Fin 0) (take i ps))
                                   (scaleX st))
              \<and> box_w (bs ! i) = js_max (Fin 1) (js_round (js_mul (num_or_zero (widthCm (ps ! i))) (scaleX st)))
              \<and> box_h (bs ! i) = js_max (Fin 1) (js_round (js_mul (num_or_zero (heightCm (ps ! i))) (scaleY st))))
           \<and> (finite_widths ps \<longrightarrow>
                (\<forall>i<length ps. box_left (bs ! i) = Fin (of_int (round (sum_list (map width_cm (take i ps)) * sx)))))
           \<and> (ps \<noteq> [] \<longrightarrow> box_left (bs ! 0) = Fin 0)"
proof -
  obtain bs where bs: "MultiPlatePreview el st ps = Inr bs"
    using MultiPlatePreview_returns [OF assms(1)] by blast
  then have r: "render_plates (needMirror (totalWidthCm ps))
                  (frameDims el (totalWidthCm ps) (scaleX st))
                  (tile (scaleX st) (frameW (frameDims el (totalWidthCm ps) (scaleX st))))
                  st (Fin 0) ps = Inr bs"
    by (simp add: MultiPlatePreview_def Let_def)
  have len: "length bs = length ps" by (rule render_plates_length [OF r])
  have geom: "\<forall>i<length ps.
                box_left (bs ! i) =
                  js_round (js_mul (foldl (\<lambda>x p. js_add x (num_or_zero (widthCm p))) (Fin 0) (take i ps))
                                   (scaleX st))
              \<and> box_w (bs ! i) = js_max (Fin 1) (js_round (js_mul (num_or_zero (widthCm (ps ! i))) (scaleX st)))
              \<and> box_h (bs ! i) = js_max (Fin 1) (js_round (js_mul (num_or_zero (heightCm (ps ! i))) (scaleY st)))"
    using render_plates_nth [OF r] by blast
  have fin: "box_left (bs ! i) = Fin (of_int (round (sum_list (map width_cm (take i ps)) * sx)))"
    if "finite_widths ps" "i < length ps" for i
    using geom that assms(2) foldl_widths_fin [OF finite_widths_take [OF that(1)], of 0 i]
    by simp
  have first: "box_left (bs ! 0) = Fin 0" if "ps \<noteq> []"
    using geom that assms(2) by simp
  show ?thesis using bs len geom fin first by blast
qed

theorem compositor_geometry_witness:
  "\<exists>bs. MultiPlatePreview None narrow_scale plates_A = Inr bs \<and> length bs = 2
        \<and> box_left (bs ! 0) = Fin 0 \<and> box_left (bs ! 1) = Fin 125
        \<and> box_w (bs ! 1) = Fin 50 \<and> box_h (bs ! 1) = Fin 180"
proof -
  have s: "scaleX narrow_scale = Fin (1 / 2)" by (simp add: narrow_scale_def)
  from compositor_geometry [OF fits_A s]
  obtain bs where bs: "MultiPlatePreview None narrow_scale plates_A = Inr bs"
    and len: "length bs = length plates_A"
    and g: "\<forall>i<length plates_A.
              box_left (bs ! i) =
                js_round (js_mul (foldl (\<lambda>x p. js_add x (num_or_zero (widthCm p))) (Fin 0) (take i plates_A))
                                 (scaleX narrow_scale))
            \<and> box_w (bs ! i) = js_max (Fin 1) (js_round (js_mul (num_or_zero (widthCm (plates_A ! i))) (scaleX narrow_scale)))
            \<and> box_h (bs ! i) = js_max (Fin 1) (js_round (js_mul (num_or_zero (heightCm (plates_A ! i))) (scaleY narrow_scale)))"
    and z: "plates_A \<noteq> [] \<longrightarrow> box_left (bs ! 0) = Fin 0"
    by blast
  have l2: "length plates_A = 2" by (simp add: plates_A_def)
  from g l2 have "box_left (bs ! 1) =
                js_round (js_mul (foldl (\<lambda>x p. js_add x (num_or_zero (widthCm p))) (Fin 0) (take 1 plates_A))
                                 (scaleX narrow_scale))
            \<and> box_w (bs ! 1) = js_max (Fin 1) (js_round (js_mul (num_or_zero (widthCm (plates_A ! 1))) (scaleX narrow_scale)))
            \<and> box_h (bs ! 1) = js_max (Fin 1) (js_round (js_mul (num_or_zero (heightCm (plates_A ! 1))) (scaleY narrow_scale)))"
    by simp
  then have "box_left (bs ! 1) = Fin 125 \<and> box_w (bs ! 1) = Fin 50 \<and> box_h (bs ! 1) = Fin 180"
    by (simp add: plates_A_def narrow_scale_def num_or_zero_def js_or_def)
  moreover from z have "box_left (bs ! 0) = Fin 0" by (simp add: plates_A_def)
  ultimately show ?thesis using bs len l2 by auto
qed

text \<open>
  C3. For a finite total width \<open>t\<close>, \<^verbatim>\<open>needMirror\<close> holds iff \<open>300 < t\<close>, and every
  box of one render is tiled iff \<open>300 < t\<close> and stretched iff \<open>t \<le> 300\<close>; so at
  \<open>t = 300\<close> all boxes are stretched.
\<close>

theorem tiling_mode_iff:
  assumes "tile_row_fits el st ps" and "totalWidthCm ps = Fin t"
  shows "needMirror (totalWidthCm ps) = (300 < t)
       \<and> (\<exists>bs. MultiPlatePreview el st ps = Inr bs \<and> length bs = length ps
             \<and> (\<forall>b\<in>set bs. is_Tiled (box_motif b) = (300 < t)
                           \<and> is_Stretched (box_motif b) = (t \<le> 300)))"
proof -
  have nm: "needMirror (totalWidthCm ps) = (300 < t)"
    by (simp add: needMirror_def MOTIF_WIDTH_CM_def assms(2))
  obtain bs where bs: "MultiPlatePreview el st ps = Inr bs"
    using MultiPlatePreview_returns [OF assms(1)] by blast
  then have r: "render_plates (needMirror (totalWidthCm ps))
                  (frameDims el (totalWidthCm ps) (scaleX st))
                  (tile (scaleX st) (frameW (frameDims el (totalWidthCm ps) (scaleX st))))
                  st (Fin 0) ps = Inr bs"
    by (simp add: MultiPlatePreview_def Let_def)
  have "is_Tiled (box_motif b) = (300 < t) \<and> is_Stretched (box_motif b) = (t \<le> 300)"
    if "b \<in> set bs" for b
    using render_plates_motif [OF r that] plate_motif_mode nm by (auto simp: not_less)
  with bs render_plates_length [OF r] nm show ?thesis by blast
qed

theorem tiling_mode_iff_witness:
  "needMirror (totalWidthCm plates_B) = False
   \<and> (\<exists>bs. MultiPlatePreview None narrow_scale plates_B = Inr bs \<and> length bs = 1
          \<and> is_Stretched (box_motif (bs ! 0)) \<and> \<not> is_Tiled (box_motif (bs ! 0)))"
proof -
  from tiling_mode_iff [OF fits_B total_B]
  obtain bs where nm: "needMirror (totalWidthCm plates_B) = ((300::real) < 300)"
    and bs: "MultiPlatePreview None narrow_scale plates_B = Inr bs"
    and len: "length bs = length plates_B"
    and m: "\<forall>b\<in>set bs. is_Tiled (box_motif b) = ((300::real) < 300)
                         \<and> is_Stretched (box_motif b) = ((300::real) \<le> 300)"
    by blast
  have l1: "length bs = 1" using len by (simp add: plates_B_def)
  then have "bs ! 0 \<in> set bs" by simp
  with m have "is_Stretched (box_motif (bs ! 0)) \<and> \<not> is_Tiled (box_motif (bs ! 0))" by simp
  with nm bs l1 show ?thesis by auto
qed

text \<open>
  C4. In tiled mode with finite scale and total width, the tile width is
  \<open>max 1 (round (300 * scaleX))\<close>, the tile count is
  \<open>max 1 \<lceil>frameW / tileW\<rceil>\<close>, and every box holds a row of that many tiles of that
  width in which tile \<open>k\<close> (counted from 0) is mirrored iff \<open>k\<close> is odd.
\<close>

theorem mirror_tiling:
  assumes "scaleX st = Fin sx" and "totalWidthCm ps = Fin t" and "300 < t"
    and "tile_row_fits el st ps"
  shows "\<exists>fw tw tc bs.
           fw = max 1 (round (t * sx)) \<and> tw = max 1 (round (300 * sx))
         \<and> tc = max 1 \<lceil>real_of_int fw / real_of_int tw\<rceil>
         \<and> frameW (frameDims el (totalWidthCm ps) (scaleX st)) = Fin (of_int fw)
         \<and> tile (scaleX st) (Fin (of_int fw)) = \<lparr>tileW = Fin (of_int tw), tileCount = Fin (of_int tc)\<rparr>
         \<and> MultiPlatePreview el st ps = Inr bs \<and> length bs = length ps
         \<and> (\<forall>b\<in>set bs. is_Tiled (box_motif b) \<and> length (tiles (box_motif b)) = nat tc
               \<and> (\<forall>k<nat tc. img_width (tiles (box_motif b) ! k) = Fin (of_int tw)
                              \<and> mirrored (tiles (box_motif b) ! k) = odd k))"
proof -
  define fw where "fw = max 1 (round (t * sx))"
  define tw where "tw = max 1 (round (300 * sx))"
  define tc where "tc = max 1 \<lceil>real_of_int fw / real_of_int tw\<rceil>"
  have fW: "frameW (frameDims el (totalWidthCm ps) (scaleX st)) = Fin (of_int fw)"
    by (simp add: assms(1,2) frameW_fin fw_def)
  have tl: "tile (scaleX st) (Fin (of_int fw)) = \<lparr>tileW = Fin (of_int tw), tileCount = Fin (of_int tc)\<rparr>"
    by (simp add: assms(1) tile_fin tw_def tc_def)
  have nm: "needMirror (totalWidthCm ps)"
    by (simp add: needMirror_def MOTIF_WIDTH_CM_def assms(2,3))
  have tc1: "1 \<le> tc" by (simp add: tc_def)
  have "ToLength (Fin (of_int tc)) \<le> 2 ^ 32 - 1"
    using assms(4) nm by (simp add: tile_row_fits_def fW tl)
  then have len: "ToLength (Fin (of_int tc)) = nat tc"
    by (simp add: ToLength_pos_int [OF tc1] min_def split: if_splits)
  obtain bs where bs: "MultiPlatePreview el st ps = Inr bs"
    using MultiPlatePreview_returns [OF assms(4)] by blast
  then have r: "render_plates True (frameDims el (totalWidthCm ps) (scaleX st))
                  \<lparr>tileW = Fin (of_int tw), tileCount = Fin (of_int tc)\<rparr> st (Fin 0) ps = Inr bs"
    using nm by (simp add: MultiPlatePreview_def Let_def fW tl)
  have "is_Tiled (box_motif b) \<and> length (tiles (box_motif b)) = nat tc
          \<and> (\<forall>k<nat tc. img_width (tiles (box_motif b) ! k) = Fin (of_int tw)
                         \<and> mirrored (tiles (box_motif b) ! k) = odd k)"
    if b: "b \<in> set bs" for b
  proof -
    obtain l where "plate_motif True (frameDims el (totalWidthCm ps) (scaleX st))
                      \<lparr>tileW = Fin (of_int tw), tileCount = Fin (of_int tc)\<rparr> l = Inr (box_motif b)"
      using render_plates_motif [OF r b] by blast
    from plate_motif_tiled [OF this] show ?thesis
      by (simp add: len odd_iff_mod_2_eq_one)
  qed
  with fW tl bs render_plates_length [OF r] show ?thesis
    unfolding fw_def [symmetric] tw_def [symmetric] tc_def [symmetric] 
    using fw_def tw_def tc_def by blast
qed

theorem mirror_tiling_witness:
  "\<exists>bs. MultiPlatePreview None narrow_scale plates_A = Inr bs \<and> length bs = 2
        \<and> is_Tiled (box_motif (bs ! 0)) \<and> length (tiles (box_motif (bs ! 0))) = 2
        \<and> img_width (tiles (box_motif (bs ! 0)) ! 0) = Fin 150
        \<and> \<not> mirrored (tiles (box_motif (bs ! 0)) ! 0)
        \<and> mirrored (tiles (box_motif (bs ! 0)) ! 1)"
proof -
  have s: "scaleX narrow_scale = Fin (1 / 2)" by (simp add: narrow_scale_def)
  have t: "(300::real) < 350" by simp
  from mirror_tiling [OF s total_A t fits_A]
  obtain fw tw tc bs where fw: "fw = max 1 (round (350 * (1 / 2 :: real)))"
    and tw: "tw = max 1 (round (300 * (1 / 2 :: real)))"
    and tc: "tc = max 1 \<lceil>real_of_int fw / real_of_int tw\<rceil>"
    and bs: "MultiPlatePreview None narrow_scale plates_A = Inr bs"
    and len: "length bs = length plates_A"
    and m: "\<forall>b\<in>set bs. is_Tiled (box_motif b) \<and> length (tiles (box_motif b)) = nat tc
               \<and> (\<forall>k<nat tc. img_width (tiles (box_motif b) ! k) = Fin (of_int tw)
                              \<and> mirrored (tiles (box_motif b) ! k) = odd k)"
    by blast
  have fw': "fw = 175" using fw by simp
  have tw': "tw = 150" using tw by simp
  have tc': "tc = 2" using tc by (simp add: fw' tw')
  have l2: "length bs = 2" using len by (simp add: plates_A_def)
  then have "bs ! 0 \<in> set bs" by simp
  with m have b0: "is_Tiled (box_motif (bs ! 0)) \<and> length (tiles (box_motif (bs ! 0))) = nat tc
               \<and> (\<forall>k<nat tc. img_width (tiles (box_motif (bs ! 0)) ! k) = Fin (of_int tw)
                              \<and> mirrored (tiles (box_motif (bs ! 0)) ! k) = odd k)"
    by blast
  then have k0: "img_width (tiles (box_motif (bs ! 0)) ! 0) = Fin 150
                 \<and> \<not> mirrored (tiles (box_motif (bs ! 0)) ! 0)"
    by (simp add: tc' tw')
  from b0 have k1: "mirrored (tiles (box_motif (bs ! 0)) ! 1)"
    by (simp add: tc' tw')
  from b0 bs l2 k0 k1 show ?thesis by (auto simp: tc')
qed

text \<open>
  C10. For finite plate widths and a finite \<open>scaleX\<close>, the frame width, the tile width
  and the tile count are integers with \<open>tileW \<ge> 1\<close>, \<open>tileCount \<ge> 1\<close> and
  \<open>tileCount * tileW \<ge> frameW\<close>.
\<close>

theorem tile_row_covers_frame:
  assumes "finite_widths ps"
  shows "\<exists>fw tw tc.
           frameW (frameDims el (totalWidthCm ps) (Fin sx)) = Fin (of_int fw)
         \<and> tile (Fin sx) (Fin (of_int fw)) = \<lparr>tileW = Fin (of_int tw), tileCount = Fin (of_int tc)\<rparr>
         \<and> 1 \<le> tw \<and> 1 \<le> tc \<and> fw \<le> tc * tw"
proof -
  obtain t where t: "totalWidthCm ps = Fin t"
    using totalWidthCm_fin [OF assms] by blast
  define fw where "fw = max 1 (round (t * sx))"
  define tw where "tw = max 1 (round (300 * sx))"
  define tc where "tc = max 1 \<lceil>real_of_int fw / real_of_int tw\<rceil>"
  have tw1: "1 \<le> tw" by (simp add: tw_def)
  have tc1: "1 \<le> tc" by (simp add: tc_def)
  have "real_of_int fw / real_of_int tw \<le> real_of_int \<lceil>real_of_int fw / real_of_int tw\<rceil>"
    by (rule le_of_int_ceiling)
  also have "\<dots> \<le> real_of_int tc" by (simp add: tc_def)
  finally have "real_of_int fw \<le> real_of_int tc * real_of_int tw"
    using tw1 by (simp add: pos_divide_le_eq)
  then have "real_of_int fw \<le> real_of_int (tc * tw)" by simp
  then have cover: "fw \<le> tc * tw" by (simp only: of_int_le_iff)
  have "frameW (frameDims el (totalWidthCm ps) (Fin sx)) = Fin (of_int fw)"
    by (simp add: t frameW_fin fw_def)
  moreover have "tile (Fin sx) (Fin (of_int fw)) = \<lparr>tileW = Fin (of_int tw), tileCount = Fin (of_int tc)\<rparr>"
    by (simp add: tile_fin tw_def tc_def)
  ultimately show ?thesis using tw1 tc1 cover by blast
qed

theorem tile_row_covers_frame_witness:
  "\<exists>fw tw tc.
     frameW (frameDims None (totalWidthCm plates_A) (Fin (1 / 2))) = Fin (of_int fw)
   \<and> tile (Fin (1 / 2)) (Fin (of_int fw)) = \<lparr>tileW = Fin (of_int tw), tileCount = Fin (of_int tc)\<rparr>
   \<and> 1 \<le> tw \<and> 1 \<le> tc \<and> fw \<le> tc * tw"
  using tile_row_covers_frame [OF finite_A, of None "1 / 2"] .

section \<open>Rounding drift of the plate widths\<close>

lemma px_bounds:
  assumes "0 \<le> x"
  shows "x - 1/2 \<le> real_of_int (max 1 (round x))" and "real_of_int (max 1 (round x)) \<le> x + 1"
proof -
  have ge: "x - 1/2 \<le> real_of_int (round x)" by (rule of_int_round_ge)
  have le: "real_of_int (round x) \<le> x + 1/2" by (rule of_int_round_le)
  show "x - 1/2 \<le> real_of_int (max 1 (round x))"
    using ge by (simp add: max_def)
  show "real_of_int (max 1 (round x)) \<le> x + 1"
    using le assms by (simp add: max_def)
qed

lemma px_nonpos:
  fixes x :: real
  assumes "x \<le> 0"
  shows "max 1 (round x) = 1"
proof -
  have "round x \<le> round (0::real)" using assms by (rule round_mono)
  then show ?thesis by simp
qed

lemma sum_px_bounds:
  fixes cs :: "real list" and s :: real
  assumes "\<forall>c\<in>set cs. 0 \<le> c" and "0 \<le> s"
  shows "sum_list cs * s - real (length cs) / 2 \<le> real_of_int (\<Sum>c\<leftarrow>cs. max 1 (round (c * s)))
       \<and> real_of_int (\<Sum>c\<leftarrow>cs. max 1 (round (c * s))) \<le> sum_list cs * s + real (length cs)"
  using assms(1)
proof (induction cs)
  case Nil
  then show ?case by simp
next
  case (Cons c cs)
  then have "0 \<le> c * s" using assms(2) by simp
  note b = px_bounds [OF this]
  from Cons have ih:
    "sum_list cs * s - real (length cs) / 2 \<le> real_of_int (\<Sum>c\<leftarrow>cs. max 1 (round (c * s)))"
    "real_of_int (\<Sum>c\<leftarrow>cs. max 1 (round (c * s))) \<le> sum_list cs * s + real (length cs)"
    by simp_all
  have e: "sum_list (c # cs) * s = c * s + sum_list cs * s" by (simp add: distrib_right)
  have l: "real (length (c # cs)) = real (length cs) + 1" by simp
  have v: "real_of_int (\<Sum>c\<leftarrow>c # cs. max 1 (round (c * s)))
             = real_of_int (max 1 (round (c * s))) + real_of_int (\<Sum>c\<leftarrow>cs. max 1 (round (c * s)))"
    by simp
  have lin: "x1 + x2 - (n + 1) / 2 \<le> a1 + a2 \<and> a1 + a2 \<le> x1 + x2 + (n + 1)"
    if "x1 - 1 / 2 \<le> a1" "a1 \<le> x1 + 1" "x2 - n / 2 \<le> a2" "a2 \<le> x2 + n"
    for x1 x2 a1 a2 n :: real
    using that by (simp add: field_simps)
  show ?case unfolding e l v by (rule lin [OF b ih])
qed

lemma sum_px_nonpos:
  fixes cs :: "real list" and s :: real
  assumes "\<forall>c\<in>set cs. 0 \<le> c" and "s \<le> 0"
  shows "(\<Sum>c\<leftarrow>cs. max 1 (round (c * s))) = int (length cs)"
  using assms(1)
proof (induction cs)
  case Nil
  then show ?case by simp
next
  case (Cons c cs)
  then have "c * s \<le> 0" using assms(2) by (simp add: mult_nonneg_nonpos)
  from px_nonpos [OF this] Cons show ?case by simp
qed

lemma width_drift:
  fixes cs :: "real list" and s :: real
  assumes nonneg: "\<forall>c\<in>set cs. 0 \<le> c" and pos: "0 < sum_list cs"
  shows "\<bar>(\<Sum>c\<leftarrow>cs. max 1 (round (c * s))) - max 1 (round (sum_list cs * s))\<bar> \<le> int (length cs)"
proof -
  have n1: "1 \<le> length cs" using pos by (cases cs) auto
  show ?thesis
  proof (cases "0 \<le> s")
    case True
    then have X: "0 \<le> sum_list cs * s" using pos by simp
    note W = sum_px_bounds [OF nonneg True]
    note F = px_bounds [OF X]
    define W' where "W' = (\<Sum>c\<leftarrow>cs. max 1 (round (c * s)))"
    define F' where "F' = max 1 (round (sum_list cs * s))"
    have "real_of_int (W' - F') \<le> real (length cs) + 1/2"
      using W F by (simp add: W'_def F'_def)
    then have up: "W' - F' \<le> int (length cs)" by linarith
    have "real_of_int (F' - W') \<le> 1 + real (length cs) / 2"
      using W F by (simp add: W'_def F'_def)
    then have "F' - W' \<le> int (length cs)" using n1 by linarith
    with up show ?thesis unfolding W'_def F'_def by linarith
  next
    case False
    then have s: "s \<le> 0" by simp
    then have "sum_list cs * s \<le> 0" using pos by (simp add: mult_nonneg_nonpos)
    from px_nonpos [OF this] sum_px_nonpos [OF nonneg s] n1 show ?thesis by simp
  qed
qed

text \<open>
  C5, as stated: for every list of \<open>n\<close> plates and every scale the pixel widths of the
  boxes sum to within \<open>n\<close> of the frame width. For one plate of width 0 and
  \<open>scaleX = 3\<close> the box is clamped to 1 px, while the total width 0 is replaced by 1
  and the frame is 3 px wide: the difference is 2, with \<open>n = 1\<close>.
\<close>

theorem zero_width_drift_exceeds:
  "length plates_zero = 1
   \<and> totalWidthCm plates_zero = Fin 1
   \<and> (\<exists>bs. MultiPlatePreview None wide_scale plates_zero = Inr bs \<and> map box_w bs = [Fin 1])
   \<and> frameW (frameDims None (totalWidthCm plates_zero) (scaleX wide_scale)) = Fin 3
   \<and> \<not> \<bar>(1::int) - 3\<bar> \<le> int (length plates_zero)"
  by (simp add: plates_zero_def wide_scale_def totalWidthCm_def num_or_zero_def js_or_def
      MultiPlatePreview_def Let_def frameDims_def tile_def needMirror_def MOTIF_WIDTH_CM_def
      plate_motif_def)

text \<open>
  C5, amended: for \<open>n\<close> plates with finite, non-negative widths of positive sum and any
  finite \<open>scaleX\<close>, the pixel widths of the rendered boxes are
  \<open>max 1 (round (width * scaleX))\<close>, the frame width is
  \<open>max 1 (round (total * scaleX))\<close>, and their sum differs from the frame width by at
  most \<open>n\<close>.
\<close>

theorem pixel_width_drift:
  assumes "finite_widths ps" and "\<forall>p\<in>set ps. 0 \<le> width_cm p"
    and "0 < sum_list (map width_cm ps)"
    and "scaleX st = Fin sx" and "tile_row_fits el st ps"
  shows "\<exists>bs. MultiPlatePreview el st ps = Inr bs
           \<and> map box_w bs = map (\<lambda>p. Fin (of_int (max 1 (round (width_cm p * sx))))) ps
           \<and> frameW (frameDims el (totalWidthCm ps) (scaleX st)) =
               Fin (of_int (max 1 (round (sum_list (map width_cm ps) * sx))))
           \<and> \<bar>(\<Sum>p\<leftarrow>ps. max 1 (round (width_cm p * sx)))
                - max 1 (round (sum_list (map width_cm ps) * sx))\<bar> \<le> int (length ps)"
proof -
  obtain bs where bs: "MultiPlatePreview el st ps = Inr bs"
    using MultiPlatePreview_returns [OF assms(5)] by blast
  then have r: "render_plates (needMirror (totalWidthCm ps))
                  (frameDims el (totalWidthCm ps) (scaleX st))
                  (tile (scaleX st) (frameW (frameDims el (totalWidthCm ps) (scaleX st))))
                  st (Fin 0) ps = Inr bs"
    by (simp add: MultiPlatePreview_def Let_def)
  have "js_max (Fin 1) (js_round (js_mul (num_or_zero (widthCm p)) (scaleX st)))
          = Fin (of_int (max 1 (round (width_cm p * sx))))" if "p \<in> set ps" for p
  proof -
    from that assms(1) have "num_or_zero (widthCm p) = Fin (width_cm p)"
      by (simp add: finite_widths_def list_all_iff width_cm_def is_fin_num_val)
    then show ?thesis by (simp add: assms(4) of_int_max)
  qed
  then have ws: "map box_w bs = map (\<lambda>p. Fin (of_int (max 1 (round (width_cm p * sx))))) ps"
    using render_plates_widths [OF r] by simp
  have fW: "frameW (frameDims el (totalWidthCm ps) (scaleX st)) =
              Fin (of_int (max 1 (round (sum_list (map width_cm ps) * sx))))"
    using assms(3) by (simp add: totalWidthCm_fin [OF assms(1)] assms(4) frameW_fin)
  have "\<forall>c\<in>set (map width_cm ps). 0 \<le> c" using assms(2) by simp
  from width_drift [OF this assms(3), of sx]
  have "\<bar>(\<Sum>p\<leftarrow>ps. max 1 (round (width_cm p * sx)))
          - max 1 (round (sum_list (map width_cm ps) * sx))\<bar> \<le> int (length ps)"
    by (simp add: comp_def)
  with bs ws fW show ?thesis by blast
qed

theorem pixel_width_drift_witness:
  "\<exists>bs. MultiPlatePreview None narrow_scale plates_A = Inr bs
        \<and> map box_w bs = [Fin 125, Fin 50]
        \<and> frameW (frameDims None (totalWidthCm plates_A) (scaleX narrow_scale)) = Fin 175"
proof -
  have nn: "\<forall>p\<in>set plates_A. 0 \<le> width_cm p"
    by (simp add: plates_A_def width_cm_def num_or_zero_def js_or_def)
  have pos: "0 < sum_list (map width_cm plates_A)"
    by (simp add: plates_A_def width_cm_def num_or_zero_def js_or_def)
  have s: "scaleX narrow_scale = Fin (1 / 2)" by (simp add: narrow_scale_def)
  from pixel_width_drift [OF finite_A nn pos s fits_A]
  obtain bs where bs: "MultiPlatePreview None narrow_scale plates_A = Inr bs"
    and ws: "map box_w bs = map (\<lambda>p. Fin (of_int (max 1 (round (width_cm p * (1 / 2)))))) plates_A"
    and fW: "frameW (frameDims None (totalWidthCm plates_A) (scaleX narrow_scale)) =
               Fin (of_int (max 1 (round (sum_list (map width_cm plates_A) * (1 / 2)))))"
    by blast
  from ws have "map box_w bs = [Fin 125, Fin 50]"
    by (simp add: plates_A_def width_cm_def num_or_zero_def js_or_def)
  moreover from fW have "frameW (frameDims None (totalWidthCm plates_A) (scaleX narrow_scale)) = Fin 175"
    by (simp add: plates_A_def width_cm_def num_or_zero_def js_or_def)
  ultimately show ?thesis using bs by auto
qed

section \<open>Missing and non-finite plate dimensions\<close>

lemma js_add_zero: "js_add x (Fin 0) = x"
  by (cases x) simp_all

lemma num_or_zero_absent:
  "v \<in> {Undefined, Null, Num NaN} \<Longrightarrow> num_or_zero v = Fin 0"
  by (auto simp: num_or_zero_def js_or_def)

lemma foldl_skip_zero:
  "num_or_zero (widthCm p) = Fin 0 \<Longrightarrow>
     foldl (\<lambda>s p. js_add s (num_or_zero (widthCm p))) a (xs @ p # ys)
       = foldl (\<lambda>s p. js_add s (num_or_zero (widthCm p))) a (xs @ ys)"
  by (simp add: js_add_zero)

text \<open>
  C7, as stated: a width of plus infinity is treated as 0 and never makes the render
  raise. It is kept as infinity: for a single plate of infinite width the total width is
  infinite, and the first render (scales 1, container not yet mounted) asks for
  infinitely many tiles and throws a RangeError.
\<close>

theorem infinite_width_not_zero:
  "num_or_zero (Num PInf) = PInf
   \<and> totalWidthCm [\<lparr>plate_id = ''a'', widthCm = Num PInf, heightCm = Num (Fin 100), motifUrl = ''m''\<rparr>] = PInf
   \<and> MultiPlatePreview None initial_scale
       [\<lparr>plate_id = ''a'', widthCm = Num PInf, heightCm = Num (Fin 100), motifUrl = ''m''\<rparr>]
       = Inl RangeError"
  by (simp add: num_or_zero_def js_or_def totalWidthCm_def MultiPlatePreview_def Let_def
      initial_scale_def frameDims_def tile_def MOTIF_WIDTH_CM_def needMirror_def inf_signed_def
      plate_motif_def Array_from_length_def ToLength_def)

text \<open>
  C7, amended: a width or height that is missing, \<^verbatim>\<open>null\<close> or NaN is treated as 0.
  Such a width adds nothing to \<^verbatim>\<open>totalWidthCm\<close> (the total is that of the list without
  the plate), and for finite scales the box of the plate is 1 px wide, respectively 1 px
  high; the render returns whenever the tile row is within the array limit.
\<close>

theorem absent_or_NaN_is_zero:
  assumes "tile_row_fits el st ps" and "scaleX st = Fin sx" and "scaleY st = Fin sy"
    and "i < length ps"
  shows "\<exists>bs. MultiPlatePreview el st ps = Inr bs \<and> length bs = length ps
           \<and> (widthCm (ps ! i) \<in> {Undefined, Null, Num NaN} \<longrightarrow>
                 num_or_zero (widthCm (ps ! i)) = Fin 0
               \<and> totalWidthCm ps = totalWidthCm (take i ps @ drop (Suc i) ps)
               \<and> box_w (bs ! i) = Fin 1)
           \<and> (heightCm (ps ! i) \<in> {Undefined, Null, Num NaN} \<longrightarrow>
                 num_or_zero (heightCm (ps ! i)) = Fin 0 \<and> box_h (bs ! i) = Fin 1)"
proof -
  obtain bs where bs: "MultiPlatePreview el st ps = Inr bs"
    using MultiPlatePreview_returns [OF assms(1)] by blast
  then have r: "render_plates (needMirror (totalWidthCm ps))
                  (frameDims el (totalWidthCm ps) (scaleX st))
                  (tile (scaleX st) (frameW (frameDims el (totalWidthCm ps) (scaleX st))))
                  st (Fin 0) ps = Inr bs"
    by (simp add: MultiPlatePreview_def Let_def)
  note g = render_plates_nth [OF r assms(4)]
  have split: "ps = take i ps @ ps ! i # drop (Suc i) ps"
    using assms(4) by (simp add: id_take_nth_drop)
  have w: "num_or_zero (widthCm (ps ! i)) = Fin 0
         \<and> totalWidthCm ps = totalWidthCm (take i ps @ drop (Suc i) ps)
         \<and> box_w (bs ! i) = Fin 1"
    if a: "widthCm (ps ! i) \<in> {Undefined, Null, Num NaN}"
  proof -
    have z: "num_or_zero (widthCm (ps ! i)) = Fin 0" by (rule num_or_zero_absent [OF a])
    have "totalWidthCm ps = totalWidthCm (take i ps @ ps ! i # drop (Suc i) ps)"
      using split by simp
    also have "\<dots> = totalWidthCm (take i ps @ drop (Suc i) ps)"
      unfolding totalWidthCm_def by (simp only: foldl_skip_zero [OF z])
    finally have t: "totalWidthCm ps = totalWidthCm (take i ps @ drop (Suc i) ps)" .
    from g z assms(2) have "box_w (bs ! i) = Fin 1" by simp
    with z t show ?thesis by simp
  qed
  have h: "num_or_zero (heightCm (ps ! i)) = Fin 0 \<and> box_h (bs ! i) = Fin 1"
    if a: "heightCm (ps ! i) \<in> {Undefined, Null, Num NaN}"
  proof -
    have z: "num_or_zero (heightCm (ps ! i)) = Fin 0" by (rule num_or_zero_absent [OF a])
    from g z assms(3) have "box_h (bs ! i) = Fin 1" by simp
    with z show ?thesis by simp
  qed
  show ?thesis using bs render_plates_length [OF r] w h by blast
qed

theorem absent_or_NaN_is_zero_witness:
  "\<exists>bs. MultiPlatePreview None narrow_scale plates_gap = Inr bs \<and> length bs = 2
        \<and> box_w (bs ! 1) = Fin 1
        \<and> totalWidthCm plates_gap = totalWidthCm (take 1 plates_gap @ drop 2 plates_gap)"
proof -
  have s: "scaleX narrow_scale = Fin (1 / 2)" "scaleY narrow_scale = Fin 2"
    by (simp_all add: narrow_scale_def)
  have i: "1 < length plates_gap" by (simp add: plates_gap_def)
  have a: "widthCm (plates_gap ! 1) \<in> {Undefined, Null, Num NaN}" by (simp add: plates_gap_def)
  from absent_or_NaN_is_zero [OF fits_gap s i] a
  obtain bs where "MultiPlatePreview None narrow_scale plates_gap = Inr bs"
    "length bs = length plates_gap" "box_w (bs ! 1) = Fin 1"
    "totalWidthCm plates_gap = totalWidthCm (take 1 plates_gap @ drop (Suc 1) plates_gap)"
    by blast
  then show ?thesis by (auto simp: plates_gap_def)
qed

section \<open>The number of plates\<close>

lemma filter_distinct_length:
  "distinct (map f xs) \<Longrightarrow> length xs - 1 \<le> length (filter (\<lambda>p. f p \<noteq> a) xs)"
proof (induction xs)
  case Nil
  then show ?case by simp
next
  case (Cons x xs)
  show ?case
  proof (cases "f x = a")
    case True
    with Cons.prems have "a \<notin> f ` set xs" by simp
    then have "\<forall>p\<in>set xs. f p \<noteq> a" by blast
    then have "filter (\<lambda>p. f p \<noteq> a) xs = xs" by (simp add: filter_id_conv)
    with True show ?thesis by simp
  next
    case False
    with Cons show ?thesis by simp
  qed
qed

lemma removePlate_ids: "set (map plate_id (removePlate i ps)) \<subseteq> set (map plate_id ps)"
  by (auto simp: removePlate_def)

lemma removePlate_distinct: "distinct (map plate_id ps) \<Longrightarrow> distinct (map plate_id (removePlate i ps))"
  by (simp add: removePlate_def distinct_map_filter)

lemma removePlate_length:
  assumes "distinct (map plate_id ps)" and "1 \<le> length ps"
  shows "1 \<le> length (removePlate i ps)" and "length (removePlate i ps) \<le> length ps"
    and "length ps - 1 \<le> length (removePlate i ps)"
  using assms filter_distinct_length [OF assms(1), of i]
  by (auto simp: removePlate_def)

lemma addPlate_length:
  "length ps \<le> 10 \<Longrightarrow> length (addPlate u dm np ps) \<le> 10"
  "1 \<le> length ps \<Longrightarrow> 1 \<le> length (addPlate u dm np ps)"
  by (auto simp: addPlate_def)

lemma addPlate_ids:
  "set (map plate_id (addPlate u dm np ps)) \<subseteq> insert u (set (map plate_id ps))"
  by (auto simp: addPlate_def withId_def)

lemma addPlate_distinct:
  "distinct (map plate_id ps) \<Longrightarrow> u \<notin> set (map plate_id ps) \<Longrightarrow> distinct (map plate_id (addPlate u dm np ps))"
  by (auto simp: addPlate_def withId_def)

lemma apply_ops_count:
  assumes "1 \<le> length ps" and "length ps \<le> 10" and "distinct (map plate_id ps @ added_ids ops)"
  shows "1 \<le> length (apply_ops dm np ops ps) \<and> length (apply_ops dm np ops ps) \<le> 10
         \<and> distinct (map plate_id (apply_ops dm np ops ps))"
  using assms
proof (induction ops arbitrary: ps)
  case Nil
  then show ?case by simp
next
  case (Cons op ops)
  show ?case
  proof (cases op)
    case (Add u)
    from Cons.prems(3) Add have d: "distinct (map plate_id ps)" and u: "u \<notin> set (map plate_id ps)"
      and rest: "distinct (added_ids ops)" "u \<notin> set (added_ids ops)"
      "set (map plate_id ps) \<inter> set (added_ids ops) = {}"
      by auto
    have "distinct (map plate_id (addPlate u dm np ps) @ added_ids ops)"
      using addPlate_distinct [OF d u, of dm np] addPlate_ids [of u dm np ps] rest by auto
    from Cons.IH [OF addPlate_length(2) [OF Cons.prems(1)] addPlate_length(1) [OF Cons.prems(2)] this]
    show ?thesis using Add by simp
  next
    case (Remove i)
    from Cons.prems(3) Remove have d: "distinct (map plate_id ps)"
      and rest: "distinct (added_ids ops)" "set (map plate_id ps) \<inter> set (added_ids ops) = {}"
      by auto
    have "distinct (map plate_id (removePlate i ps) @ added_ids ops)"
      using removePlate_distinct [OF d, of i] removePlate_ids [of i ps] rest by auto
    moreover have "length (removePlate i ps) \<le> 10"
      using removePlate_length(2) [OF d Cons.prems(1), of i] Cons.prems(2) by simp
    ultimately show ?thesis
      using Cons.IH [OF removePlate_length(1) [OF d Cons.prems(1)]] Remove by simp
  qed
qed

text \<open>
  C9, as stated: from any list of 1 to 10 plates every sequence of additions and
  removals keeps the length between 1 and 10. \<^verbatim>\<open>removePlate\<close> filters by identifier,
  so from two plates that share an identifier one removal leaves no plate.
\<close>

theorem removePlate_shared_id_empties:
  "length plates_twins = 2
   \<and> removePlate ''a'' plates_twins = []
   \<and> length (apply_ops ''m'' new_plate [Remove ''a''] plates_twins) = 0"
  by (simp add: plates_twins_def removePlate_def)

text \<open>
  C9, amended: from a list of 1 to 10 plates with pairwise distinct identifiers, every
  sequence of additions and removals in which each added plate gets an identifier not
  used before keeps the length between 1 and 10. \<^verbatim>\<open>addPlate\<close> returns a list of 10 or
  more plates unchanged and otherwise appends one plate; \<^verbatim>\<open>removePlate\<close> returns a
  list of at most one plate unchanged and otherwise drops the plates with the given
  identifier, which is at most one plate.
\<close>

theorem plate_count_invariant:
  assumes "1 \<le> length ps" and "length ps \<le> 10" and "distinct (map plate_id ps @ added_ids ops)"
  shows "1 \<le> length (apply_ops dm np ops ps) \<and> length (apply_ops dm np ops ps) \<le> 10
       \<and> (10 \<le> length ps \<longrightarrow> addPlate u dm np ps = ps)
       \<and> (length ps < 10 \<longrightarrow> addPlate u dm np ps = ps @ [withId u dm np])
       \<and> (length ps \<le> 1 \<longrightarrow> removePlate i ps = ps)
       \<and> (1 < length ps \<longrightarrow> removePlate i ps = filter (\<lambda>p. plate_id p \<noteq> i) ps)
       \<and> length ps - 1 \<le> length (removePlate i ps) \<and> length (removePlate i ps) \<le> length ps"
proof -
  from assms(3) have d: "distinct (map plate_id ps)" by simp
  show ?thesis
    using apply_ops_count [OF assms, of dm np] removePlate_length(2,3) [OF d assms(1), of i]
    by (simp add: addPlate_def removePlate_def)
qed

theorem plate_count_invariant_witness:
  "length (apply_ops ''m'' new_plate [Remove ''a'', Add ''b'', Add ''c'', Remove ''b''] plates_B) = 2"
proof -
  have d: "distinct (map plate_id plates_B @ added_ids [Remove ''a'', Add ''b'', Add ''c'', Remove ''b''])"
    by (simp add: plates_B_def)
  have l: "1 \<le> length plates_B" "length plates_B \<le> 10" by (simp_all add: plates_B_def)
  from plate_count_invariant [OF l d, of "''m''" new_plate]
  have "1 \<le> length (apply_ops ''m'' new_plate [Remove ''a'', Add ''b'', Add ''c'', Remove ''b''] plates_B)"
    by blast
  then show ?thesis
    by (simp add: plates_B_def addPlate_def removePlate_def withId_def)
qed

end
